theory Spec2Isabelle
  imports Complex_Main
begin

section \<open>Values shared by the consumer and the search view\<close>

text \<open>
  Decoded JSON, as \<^verbatim>\<open>json.loads\<close> returns it. A document body (the \<^verbatim>\<open>payload\<close> of a
  change event, the \<^verbatim>\<open>_source\<close> of a hit) is a Python dict from field names to JSON values.
\<close>

datatype json =
    JNull
  | JBool bool
  | JInt int
  | JStr string
  | JArray "json list"
  | JObject "(string \<times> json) list"

type_synonym payload = "string \<rightharpoonup> json"

text \<open>The exceptions that the modelled code paths can see.\<close>

datatype py_error =
    ValueError
  | ZeroDivisionError
  | KeyError string
  | AttributeError
  | NotFoundError
  | RequestError
  | TransportError string

section \<open>The search engine as the indexer sees it\<close>

text \<open>
  OpenSearch is an external service. It is modelled by the contract of the client calls
  that \<^verbatim>\<open>discovery/indexer/consumer.py\<close> and the management command make, on one index
  (\<^verbatim>\<open>INDEX_NAME\<close>): the index is absent or carries the body it was created with, and it
  holds documents keyed by document id. The engine is taken to be reachable: a call
  fails only where the contract of the call says so.

  A document id is the entity id the caller passed, or an id the engine generated because
  the caller passed none (\<^verbatim>\<open>client.index\<close> with \<^verbatim>\<open>id=None\<close> posts the document
  without an id). Every client call is recorded in \<open>calls\<close>.
\<close>

datatype doc_id = Entity int | Auto nat

datatype field_type = Integer | Text string | Keyword | Date | Object

record index_body =
  properties :: "(string \<times> field_type) list"
  settings :: "(string \<times> int) list"

datatype os_call =
    Exists_call
  | Create_call index_body
  | Delete_index_call
  | Index_call "int option" payload
  | Delete_call "int option"

record opensearch =
  index :: "index_body option"
  docs :: "doc_id \<rightharpoonup> payload"
  next_auto :: nat
  calls :: "os_call list"

definition called :: "os_call \<Rightarrow> opensearch \<Rightarrow> opensearch" where
  "called k c = c\<lparr>calls := calls c @ [k]\<rparr>"

text \<open>
  A call returns the engine state after it and the exception it raised, if any.
  \<^verbatim>\<open>indices.create\<close> is refused for an index that exists, \<^verbatim>\<open>indices.delete\<close> for one
  that does not; deleting the index drops its documents.
\<close>

definition indices_exists :: "opensearch \<Rightarrow> opensearch \<times> bool" where
  "indices_exists c = (called Exists_call c, index c \<noteq> None)"

definition indices_create :: "opensearch \<Rightarrow> index_body \<Rightarrow> opensearch \<times> py_error option" where
  "indices_create c body =
     (if index c \<noteq> None then (called (Create_call body) c, Some RequestError)
      else (called (Create_call body) (c\<lparr>index := Some body\<rparr>), None))"

definition indices_delete :: "opensearch \<Rightarrow> opensearch \<times> py_error option" where
  "indices_delete c =
     (if index c = None then (called Delete_index_call c, Some NotFoundError)
      else (called Delete_index_call (c\<lparr>index := None, docs := Map.empty\<rparr>), None))"

text \<open>
  \<^verbatim>\<open>client.index(index, id, body, refresh=True)\<close>: stores the body under the id, replacing
  what was there; the write is visible at once.
\<close>

definition client_index ::
  "opensearch \<Rightarrow> int option \<Rightarrow> payload \<Rightarrow> opensearch \<times> py_error option" where
  "client_index c doc_id body =
     (case doc_id of
        Some i \<Rightarrow> (called (Index_call doc_id body) (c\<lparr>docs := (docs c)(Entity i \<mapsto> body)\<rparr>), None)
      | None \<Rightarrow>
          (called (Index_call doc_id body)
             (c\<lparr>docs := (docs c)(Auto (next_auto c) \<mapsto> body), next_auto := Suc (next_auto c)\<rparr>),
           None))"

text \<open>
  \<^verbatim>\<open>client.delete(index, id, refresh=True)\<close>: the client refuses an empty id before it
  sends anything; the engine answers 404 for a document that is not there, which the
  client raises as \<^verbatim>\<open>NotFoundError\<close>.
\<close>

definition client_delete :: "opensearch \<Rightarrow> int option \<Rightarrow> opensearch \<times> py_error option" where
  "client_delete c doc_id =
     (case doc_id of
        None \<Rightarrow> (called (Delete_call doc_id) c, Some ValueError)
      | Some i \<Rightarrow>
          (if docs c (Entity i) = None then (called (Delete_call doc_id) c, Some NotFoundError)
           else (called (Delete_call doc_id) (c\<lparr>docs := (docs c)(Entity i := None)\<rparr>), None)))"

section \<open>The indexing consumer\<close>

text \<open>
  A message value is what the deserializer produced. A JSON object is read through
  \<^verbatim>\<open>event.get\<close>, so each of the three keys may be missing; any other JSON value has no
  \<^verbatim>\<open>get\<close>. The \<^verbatim>\<open>payload\<close> key defaults to the empty dict.
\<close>

record event =
  op :: "string option"
  program_id :: "int option"
  payload_key :: "payload option"

datatype message_value = Not_an_object json | Event_object event

datatype level = INFO | WARNING | ERROR

datatype log_msg =
    Created_index
  | Index_already_exists
  | Error_creating_index py_error
  | Indexed_program "int option" json
  | Error_indexing_program "int option" py_error
  | Deleted_program "int option"
  | Delete_failed "int option" py_error
  | Received_message message_value
  | Unknown_operation "string option"
  | Error_processing_message py_error
  | Consumer_error py_error

record consumer_state =
  client :: opensearch
  LOG :: "(level \<times> log_msg) list"

definition log_to :: "level \<Rightarrow> log_msg \<Rightarrow> consumer_state \<Rightarrow> consumer_state" where
  "log_to l m s = s\<lparr>LOG := LOG s @ [(l, m)]\<rparr>"

definition INDEX_BODY :: index_body where
  "INDEX_BODY =
     \<lparr>properties =
        [(''id'', Integer),
         (''title'', Text ''standard''),
         (''description'', Text ''standard''),
         (''category'', Keyword),
         (''language'', Keyword),
         (''duration'', Keyword),
         (''publish_date'', Date),
         (''media_type'', Keyword),
         (''media_url'', Keyword),
         (''thumbnail_url'', Keyword),
         (''metadata'', Object),
         (''created_at'', Date),
         (''updated_at'', Date)],
      settings = [(''number_of_shards'', 1), (''number_of_replicas'', 0)]\<rparr>"

text \<open>
  \<^verbatim>\<open>create_index_if_not_exists\<close>: the exception of a failed call is logged at level
  ERROR and raised again. The result is the state reached and the exception, if any.
\<close>

definition create_index_if_not_exists :: "consumer_state \<Rightarrow> consumer_state \<times> py_error option" where
  "create_index_if_not_exists s =
     (case indices_exists (client s) of
        (c1, False) \<Rightarrow>
          (case indices_create c1 INDEX_BODY of
             (c2, Some e) \<Rightarrow> (log_to ERROR (Error_creating_index e) (s\<lparr>client := c2\<rparr>), Some e)
           | (c2, None) \<Rightarrow> (log_to INFO Created_index (s\<lparr>client := c2\<rparr>), None))
      | (c1, True) \<Rightarrow> (log_to INFO Index_already_exists (s\<lparr>client := c1\<rparr>), None))"

definition handle_upsert :: "consumer_state \<Rightarrow> int option \<Rightarrow> payload \<Rightarrow> consumer_state" where
  "handle_upsert s doc_id payload =
     (case client_index (client s) doc_id payload of
        (c, None) \<Rightarrow>
          log_to INFO
            (Indexed_program doc_id
               (case payload ''title'' of None \<Rightarrow> JStr ''Unknown'' | Some t \<Rightarrow> t))
            (s\<lparr>client := c\<rparr>)
      | (c, Some e) \<Rightarrow> log_to ERROR (Error_indexing_program doc_id e) (s\<lparr>client := c\<rparr>))"

definition handle_delete :: "consumer_state \<Rightarrow> int option \<Rightarrow> consumer_state" where
  "handle_delete s doc_id =
     (case client_delete (client s) doc_id of
        (c, None) \<Rightarrow> log_to INFO (Deleted_program doc_id) (s\<lparr>client := c\<rparr>)
      | (c, Some e) \<Rightarrow> log_to WARNING (Delete_failed doc_id e) (s\<lparr>client := c\<rparr>))"

text \<open>
  The body of the inner \<^verbatim>\<open>try\<close> of \<^verbatim>\<open>run_consumer\<close>: read the three keys and dispatch on
  the operation tag.
\<close>

definition dispatch :: "consumer_state \<Rightarrow> message_value \<Rightarrow> consumer_state \<times> py_error option" where
  "dispatch s v =
     (let s1 = log_to INFO (Received_message v) s in
      case v of
        Not_an_object j \<Rightarrow> (s1, Some AttributeError)
      | Event_object event \<Rightarrow>
          (let payload = (case payload_key event of None \<Rightarrow> Map.empty | Some p \<Rightarrow> p) in
           if op event \<in> {Some ''upsert'', Some ''create'', Some ''update''}
           then (handle_upsert s1 (program_id event) payload, None)
           else if op event = Some ''delete''
           then (handle_delete s1 (program_id event), None)
           else (log_to WARNING (Unknown_operation (op event)) s1, None)))"

text \<open>
  One iteration of the \<^verbatim>\<open>for\<close> loop: the inner \<^verbatim>\<open>except\<close> logs whatever the body
  raised (\<^verbatim>\<open>LOG.exception\<close> writes at level ERROR) and the loop goes on.
\<close>

definition process_message :: "consumer_state \<Rightarrow> message_value \<Rightarrow> consumer_state" where
  "process_message s v =
     (case dispatch s v of
        (s', None) \<Rightarrow> s'
      | (s', Some e) \<Rightarrow> log_to ERROR (Error_processing_message e) s')"

text \<open>The \<^verbatim>\<open>for message in consumer\<close> loop over the messages one poll delivers.\<close>

fun consume :: "consumer_state \<Rightarrow> message_value list \<Rightarrow> consumer_state" where
  "consume s [] = s"
| "consume s (v # vs) = consume (process_message s v) vs"

text \<open>
  The \<^verbatim>\<open>while True\<close> loop never returns. Its input is the sequence of polls: each poll
  delivers some messages and then either times out (the iterator stops, the loop sleeps
  and polls again) or fails at the broker (the outer \<^verbatim>\<open>except\<close> logs the error, sleeps
  and polls again). \<open>run_consumer_loop\<close> is the state the loop has reached after a finite
  prefix of its polls; the sleeps change no state and are left out.
\<close>

datatype poll = Timed_out "message_value list" | Broker_failed "message_value list" py_error

fun run_consumer_loop :: "consumer_state \<Rightarrow> poll list \<Rightarrow> consumer_state" where
  "run_consumer_loop s [] = s"
| "run_consumer_loop s (Timed_out vs # ps) = run_consumer_loop (consume s vs) ps"
| "run_consumer_loop s (Broker_failed vs e # ps) =
     run_consumer_loop (log_to ERROR (Consumer_error e) (consume s vs)) ps"

fun delivered :: "poll \<Rightarrow> message_value list" where
  "delivered (Timed_out vs) = vs"
| "delivered (Broker_failed vs e) = vs"

section \<open>The operator command\<close>

text \<open>
  \<^verbatim>\<open>create_opensearch_index.Command.handle\<close>. The mapping file
  \<^verbatim>\<open>opensearch/mapping_programs.json\<close> is an input: \<open>None\<close> when the file is not there.
  The command writes to stdout and stderr and catches nothing: the result is the engine
  state reached, the lines written, and the exception that left the command, if any.
\<close>

datatype command_output =
    Mapping_file_not_found
  | Already_exists_deleting_and_recreating
  | Created_index_success

definition Command_handle ::
  "index_body option \<Rightarrow> opensearch \<Rightarrow> opensearch \<times> command_output list \<times> py_error option" where
  "Command_handle mapping_file c =
     (case mapping_file of
        None \<Rightarrow> (c, [Mapping_file_not_found], None)
      | Some mapping \<Rightarrow>
          (case indices_exists c of
             (c1, True) \<Rightarrow>
               (case indices_delete c1 of
                  (c2, Some e) \<Rightarrow> (c2, [Already_exists_deleting_and_recreating], Some e)
                | (c2, None) \<Rightarrow>
                    (case indices_create c2 mapping of
                       (c3, Some e) \<Rightarrow> (c3, [Already_exists_deleting_and_recreating], Some e)
                     | (c3, None) \<Rightarrow>
                         (c3, [Already_exists_deleting_and_recreating, Created_index_success],
                          None)))
           | (c1, False) \<Rightarrow>
               (case indices_create c1 mapping of
                  (c3, Some e) \<Rightarrow> (c3, [], Some e)
                | (c3, None) \<Rightarrow> (c3, [Created_index_success], None))))"

section \<open>The change events of the data model\<close>

text \<open>
  The data model's ChangeEvent has an operation, \<open>Upsert\<close> or \<open>Delete\<close>, an entity id and
  a payload. \<open>change_event\<close> reads a message as the ChangeEvent it carries (the tags
  \<^verbatim>\<open>create\<close> and \<^verbatim>\<open>update\<close> are spellings of \<open>Upsert\<close>), and \<open>last_applied_event\<close>
  is the operation of the last ChangeEvent for an entity in a sequence of messages.
\<close>

datatype change = Upsert payload | Delete

definition change_event :: "message_value \<Rightarrow> (int \<times> change) option" where
  "change_event v =
     (case v of
        Not_an_object j \<Rightarrow> None
      | Event_object e \<Rightarrow>
          (case program_id e of
             None \<Rightarrow> None
           | Some i \<Rightarrow>
               (if op e \<in> {Some ''upsert'', Some ''create'', Some ''update''}
                then Some (i, Upsert (case payload_key e of None \<Rightarrow> Map.empty | Some p \<Rightarrow> p))
                else if op e = Some ''delete'' then Some (i, Delete)
                else None)))"

fun last_applied_event :: "int \<Rightarrow> message_value list \<Rightarrow> change option" where
  "last_applied_event i [] = None"
| "last_applied_event i (v # vs) =
     (case last_applied_event i vs of
        Some c \<Rightarrow> Some c
      | None \<Rightarrow> (case change_event v of Some (j, c) \<Rightarrow> if j = i then Some c else None | None \<Rightarrow> None))"

text \<open>An upsert message that names no entity: the engine files its document under an id of its own.\<close>

definition upsert_without_id :: "message_value \<Rightarrow> bool" where
  "upsert_without_id v =
     (case v of
        Not_an_object j \<Rightarrow> False
      | Event_object e \<Rightarrow>
          op e \<in> {Some ''upsert'', Some ''create'', Some ''update''} \<and> program_id e = None)"

section \<open>Strings and integers of the request\<close>

text \<open>
  The Python string operations the view uses, on ASCII text: \<^verbatim>\<open>str.lower\<close>,
  \<^verbatim>\<open>str.strip\<close>, \<^verbatim>\<open>str.split(',')\<close> and \<^verbatim>\<open>int(str)\<close>. \<^verbatim>\<open>int\<close> strips white space,
  reads an optional sign and then decimal digits, which single underscores may separate;
  anything else raises \<^verbatim>\<open>ValueError\<close>. (Digits outside ASCII and the interpreter's cap
  on the number of digits are outside the model.)
\<close>

definition is_space :: "char \<Rightarrow> bool" where
  "is_space c \<longleftrightarrow>
     c \<in> set [CHR 0x09, CHR 0x0A, CHR 0x0B, CHR 0x0C, CHR 0x0D,
              CHR 0x1C, CHR 0x1D, CHR 0x1E, CHR 0x1F, CHR '' '']"

definition strip :: "string \<Rightarrow> string" where
  "strip s = rev (dropWhile is_space (rev (dropWhile is_space s)))"

definition lower_char :: "char \<Rightarrow> char" where
  "lower_char c =
     (case map_of (zip ''ABCDEFGHIJKLMNOPQRSTUVWXYZ'' ''abcdefghijklmnopqrstuvwxyz'') c of
        Some l \<Rightarrow> l
      | None \<Rightarrow> c)"

definition lower :: "string \<Rightarrow> string" where
  "lower s = map lower_char s"

fun split :: "char \<Rightarrow> string \<Rightarrow> string list" where
  "split sep [] = [[]]"
| "split sep (c # cs) =
     (if c = sep then [] # split sep cs
      else (case split sep cs of w # ws \<Rightarrow> (c # w) # ws | [] \<Rightarrow> [[c]]))"

definition digit_value :: "char \<Rightarrow> nat option" where
  "digit_value c = map_of (zip ''0123456789'' [0, 1, 2, 3, 4, 5, 6, 7, 8, 9]) c"

fun digits_from :: "nat \<Rightarrow> string \<Rightarrow> nat option" where
  "digits_from acc [] = Some acc"
| "digits_from acc (c # cs) =
     (case digit_value c of
        Some d \<Rightarrow> digits_from (10 * acc + d) cs
      | None \<Rightarrow>
          (if c = CHR ''_'' then
             (case cs of
                [] \<Rightarrow> None
              | c' # cs' \<Rightarrow>
                  (case digit_value c' of
                     Some d \<Rightarrow> digits_from (10 * acc + d) cs'
                   | None \<Rightarrow> None))
           else None))"

definition decimal :: "string \<Rightarrow> nat option" where
  "decimal s =
     (case s of
        [] \<Rightarrow> None
      | c # cs \<Rightarrow> (case digit_value c of Some d \<Rightarrow> digits_from d cs | None \<Rightarrow> None))"

definition py_int :: "string \<Rightarrow> py_error + int" where
  "py_int s =
     (let t = strip s;
          (negative, body) =
            (case t of
               c # cs \<Rightarrow>
                 if c = CHR ''-'' then (True, cs)
                 else if c = CHR ''+'' then (False, cs)
                 else (False, t)
             | [] \<Rightarrow> (False, t))
      in case decimal body of
           None \<Rightarrow> Inl ValueError
         | Some n \<Rightarrow> Inr (if negative then - int n else int n))"

text \<open>Python's \<^verbatim>\<open>//\<close> is floor division, as \<open>div\<close> on \<open>int\<close> is; by zero it raises.\<close>

definition floordiv :: "int \<Rightarrow> int \<Rightarrow> py_error + int" where
  "floordiv a b = (if b = 0 then Inl ZeroDivisionError else Inr (a div b))"

section \<open>The search view\<close>

text \<open>
  \<^verbatim>\<open>request.GET.get(key)\<close> is the value of the query parameter or \<^verbatim>\<open>None\<close>. A string
  is true in a condition when it is there and not empty.
\<close>

record request =
  GET :: "string \<rightharpoonup> string"

definition truthy :: "string option \<Rightarrow> bool" where
  "truthy v \<longleftrightarrow> v \<noteq> None \<and> v \<noteq> Some []"

datatype filter_clause =
    Term string string
  | Range string "string option" "string option"
  | Terms string "string list"

record multi_match =
  mm_query :: string
  mm_fields :: "string list"
  mm_type :: string
  mm_fuzziness :: json
  mm_operator :: string

record highlight_spec =
  hl_fields :: "string list"
  pre_tags :: "string list"
  post_tags :: "string list"

record search_body =
  body_must :: "multi_match list"
  body_filter :: "filter_clause list"
  body_from :: int
  body_size :: int
  body_sort :: "(string \<times> string) list"
  body_highlight :: "highlight_spec option"
  body_aggs :: "(string \<times> string \<times> nat option) list"

text \<open>
  The engine's answer to \<^verbatim>\<open>client.search\<close>, with the defaults of the \<^verbatim>\<open>.get\<close> calls that
  read it applied: the hits, \<^verbatim>\<open>hits.total.value\<close>, \<^verbatim>\<open>took\<close> and the aggregations. A hit
  is read with \<^verbatim>\<open>hit['_source']\<close>, which raises when the key is missing.
\<close>

record hit =
  hit_source :: "payload option"
  hit_score :: "json option"
  hit_highlight :: "(string \<times> string list) list"

record search_response =
  resp_hits :: "hit list"
  resp_total :: int
  resp_took :: int
  resp_aggregations :: json

record result =
  result_fields :: "(string \<times> json option) list"
  result_score :: "json option"
  result_highlights :: "(string \<times> string list) list"

record search_data =
  data_query :: string
  data_total :: int
  data_page :: int
  data_page_size :: int
  data_total_pages :: int
  data_results :: "result list"
  data_took :: int
  data_aggregations :: json
  data_filters_applied :: "(string \<times> string option) list"

datatype response_data =
    Error_data string "py_error option"
  | Search_data search_data

record response =
  status :: nat
  data :: response_data

definition HTTP_400_BAD_REQUEST :: nat where
  "HTTP_400_BAD_REQUEST = 400"

definition HTTP_500_INTERNAL_SERVER_ERROR :: nat where
  "HTTP_500_INTERNAL_SERVER_ERROR = 500"

definition HTTP_200_OK :: nat where
  "HTTP_200_OK = 200"

definition int_param :: "request \<Rightarrow> string \<Rightarrow> int \<Rightarrow> py_error + int" where
  "int_param request key dflt =
     (case GET request key of None \<Rightarrow> Inr dflt | Some v \<Rightarrow> py_int v)"

definition str_param :: "request \<Rightarrow> string \<Rightarrow> string \<Rightarrow> string" where
  "str_param request key dflt = (case GET request key of None \<Rightarrow> dflt | Some v \<Rightarrow> v)"

definition flag_param :: "request \<Rightarrow> string \<Rightarrow> bool" where
  "flag_param request key =
     (lower (str_param request key ''true'') = ''true'')"

text \<open>The filter clauses, in the order the view appends them.\<close>

definition filter_queries :: "request \<Rightarrow> filter_clause list" where
  "filter_queries request =
     (let category = GET request ''category'';
          language = GET request ''language'';
          media_type = GET request ''media_type'';
          duration_min = GET request ''duration_min'';
          duration_max = GET request ''duration_max'';
          publish_date_from = GET request ''publish_date_from'';
          publish_date_to = GET request ''publish_date_to'';
          tags = GET request ''tags''
      in (case category of Some v \<Rightarrow> if v \<noteq> [] then [Term ''category'' v] else [] | None \<Rightarrow> [])
       @ (case language of Some v \<Rightarrow> if v \<noteq> [] then [Term ''language'' v] else [] | None \<Rightarrow> [])
       @ (case media_type of Some v \<Rightarrow> if v \<noteq> [] then [Term ''media_type'' v] else [] | None \<Rightarrow> [])
       @ (if truthy duration_min \<or> truthy duration_max
          then [Range ''duration''
                  (if truthy duration_min then duration_min else None)
                  (if truthy duration_max then duration_max else None)]
          else [])
       @ (if truthy publish_date_from \<or> truthy publish_date_to
          then [Range ''publish_date''
                  (if truthy publish_date_from then publish_date_from else None)
                  (if truthy publish_date_to then publish_date_to else None)]
          else [])
       @ (case tags of
            Some v \<Rightarrow> if v \<noteq> [] then [Terms ''metadata.tags'' (map strip (split (CHR '','') v))] else []
          | None \<Rightarrow> []))"

definition build_search_body :: "request \<Rightarrow> string \<Rightarrow> int \<Rightarrow> int \<Rightarrow> search_body" where
  "build_search_body request query page page_size =
     (let sort_by = str_param request ''sort_by'' ''_score'';
          sort_order = str_param request ''sort_order'' ''desc'';
          highlight = flag_param request ''highlight'';
          fuzzy = flag_param request ''fuzzy'';
          from_size = (page - 1) * page_size
      in \<lparr>body_must =
            [\<lparr>mm_query = query,
              mm_fields = [''title^3'', ''description^2'', ''metadata.tags^2'', ''category''],
              mm_type = ''best_fields'',
              mm_fuzziness = (if fuzzy then JStr ''AUTO'' else JInt 0),
              mm_operator = ''or''\<rparr>],
          body_filter = filter_queries request,
          body_from = from_size,
          body_size = page_size,
          body_sort = [(sort_by, sort_order), (''created_at'', ''desc'')],
          body_highlight =
            (if highlight
             then Some \<lparr>hl_fields = [''title'', ''description'', ''metadata.tags''],
                        pre_tags = [''<em>''],
                        post_tags = [''</em>'']\<rparr>
             else None),
          body_aggs =
            [(''categories'', ''category'', None),
             (''languages'', ''language'', None),
             (''media_types'', ''media_type'', None),
             (''duration_buckets'', ''duration'', Some 20)]\<rparr>)"

definition result_of_hit :: "hit \<Rightarrow> py_error + result" where
  "result_of_hit h =
     (case hit_source h of
        None \<Rightarrow> Inl (KeyError ''_source'')
      | Some source \<Rightarrow>
          Inr \<lparr>result_fields =
                 map (\<lambda>k. (k, source k))
                   [''id'', ''title'', ''description'', ''category'', ''language'', ''duration'',
                    ''publish_date'', ''media_type'', ''media_url'', ''thumbnail_url'',
                    ''metadata'', ''created_at'', ''updated_at''],
               result_score = hit_score h,
               result_highlights = hit_highlight h\<rparr>)"

fun results_of_hits :: "hit list \<Rightarrow> py_error + result list" where
  "results_of_hits [] = Inr []"
| "results_of_hits (h # hs) =
     (case result_of_hit h of
        Inl e \<Rightarrow> Inl e
      | Inr r \<Rightarrow> (case results_of_hits hs of Inl e \<Rightarrow> Inl e | Inr rs \<Rightarrow> Inr (r # rs)))"

text \<open>
  The body of the \<^verbatim>\<open>try\<close> of \<^verbatim>\<open>SearchView.get\<close>. The engine is the function
  \<open>client_search\<close> from the request body to its answer or the exception it raises;
  building the client object sends nothing and is taken to succeed. The result is the
  response data or the exception raised, and the bodies sent to the engine.
\<close>

definition search_try ::
  "(search_body \<Rightarrow> py_error + search_response) \<Rightarrow> request \<Rightarrow> string \<Rightarrow>
   (py_error + search_data) \<times> search_body list" where
  "search_try client_search request query =
     (case int_param request ''page'' 1 of
        Inl e \<Rightarrow> (Inl e, [])
      | Inr page \<Rightarrow>
          (case int_param request ''page_size'' 20 of
             Inl e \<Rightarrow> (Inl e, [])
           | Inr n \<Rightarrow>
               (let page_size = min n 100;
                    search_body = build_search_body request query page page_size
                in case client_search search_body of
                     Inl e \<Rightarrow> (Inl e, [search_body])
                   | Inr response \<Rightarrow>
                       (let total = resp_total response in
                        case floordiv (total + page_size - 1) page_size of
                          Inl e \<Rightarrow> (Inl e, [search_body])
                        | Inr total_pages \<Rightarrow>
                            (case results_of_hits (resp_hits response) of
                               Inl e \<Rightarrow> (Inl e, [search_body])
                             | Inr results \<Rightarrow>
                                 (Inr \<lparr>data_query = query,
                                       data_total = total,
                                       data_page = page,
                                       data_page_size = page_size,
                                       data_total_pages = total_pages,
                                       data_results = results,
                                       data_took = resp_took response,
                                       data_aggregations = resp_aggregations response,
                                       data_filters_applied =
                                         map (\<lambda>k. (k, GET request k))
                                           [''category'', ''language'', ''media_type'',
                                            ''duration_min'', ''duration_max'',
                                            ''publish_date_from'', ''publish_date_to'',
                                            ''tags'']
                                         @ [(''sort_by'', Some (str_param request ''sort_by'' ''_score'')),
                                            (''sort_order'',
                                             Some (str_param request ''sort_order'' ''desc''))]\<rparr>,
                                  [search_body]))))))"

definition SearchView_get ::
  "(search_body \<Rightarrow> py_error + search_response) \<Rightarrow> request \<Rightarrow> response \<times> search_body list" where
  "SearchView_get client_search request =
     (let query = str_param request ''q'' [] in
      if query = []
      then (\<lparr>status = HTTP_400_BAD_REQUEST,
             data = Error_data ''Query parameter 'q' is required'' None\<rparr>, [])
      else
        (case search_try client_search request query of
           (Inr d, sent) \<Rightarrow> (\<lparr>status = HTTP_200_OK, data = Search_data d\<rparr>, sent)
         | (Inl e, sent) \<Rightarrow>
             (\<lparr>status = HTTP_500_INTERNAL_SERVER_ERROR,
               data = Error_data ''Search failed'' (Some e)\<rparr>, sent)))"

text \<open>A filter clause is an exact match when it is a \<^verbatim>\<open>term\<close> clause.\<close>

fun exact_match_clause :: "filter_clause \<Rightarrow> bool" where
  "exact_match_clause (Term field v) = True"
| "exact_match_clause (Range field lo hi) = False"
| "exact_match_clause (Terms field vs) = False"

section \<open>Example inputs\<close>

text \<open>
  Concrete engines, consumer states, messages, requests and search engines on which the
  theorems below are instantiated.
\<close>

definition blank_engine :: opensearch where
  "blank_engine = \<lparr>index = None, docs = Map.empty, next_auto = 0, calls = []\<rparr>"

definition fresh_engine :: opensearch where
  "fresh_engine = \<lparr>index = Some INDEX_BODY, docs = Map.empty, next_auto = 0, calls = []\<rparr>"

definition coffee_payload :: payload where
  "coffee_payload = [''title'' \<mapsto> JStr ''Coffee journey'']"

definition indexed_engine :: opensearch where
  "indexed_engine =
     \<lparr>index = Some INDEX_BODY, docs = [Entity 1 \<mapsto> coffee_payload], next_auto = 0, calls = []\<rparr>"

definition other_mapping :: index_body where
  "other_mapping = \<lparr>properties = [(''title'', Keyword)], settings = []\<rparr>"

definition blank_state :: consumer_state where
  "blank_state = \<lparr>client = blank_engine, LOG = []\<rparr>"

definition fresh_state :: consumer_state where
  "fresh_state = \<lparr>client = fresh_engine, LOG = []\<rparr>"

definition query_request :: "(string \<times> string) list \<Rightarrow> request" where
  "query_request kvs = \<lparr>GET = map_of (rev kvs)\<rparr>"

definition engine_with_total :: "int \<Rightarrow> search_body \<Rightarrow> py_error + search_response" where
  "engine_with_total t body =
     Inr \<lparr>resp_hits = [], resp_total = t, resp_took = 5, resp_aggregations = JObject []\<rparr>"

definition engine_down :: "search_body \<Rightarrow> py_error + search_response" where
  "engine_down body = Inl (TransportError ''OpenSearch connection error'')"

definition upsert_5 :: message_value where
  "upsert_5 = Event_object \<lparr>op = Some ''upsert'', program_id = Some 5, payload_key = Some coffee_payload\<rparr>"

definition create_7 :: message_value where
  "create_7 = Event_object \<lparr>op = Some ''create'', program_id = Some 7, payload_key = None\<rparr>"

definition delete_5 :: message_value where
  "delete_5 = Event_object \<lparr>op = Some ''delete'', program_id = Some 5, payload_key = Some Map.empty\<rparr>"

definition archive_5 :: message_value where
  "archive_5 = Event_object \<lparr>op = Some ''archive'', program_id = Some 5, payload_key = None\<rparr>"

definition example_polls :: "poll list" where
  "example_polls =
     [Timed_out [upsert_5, create_7], Broker_failed [delete_5] (TransportError ''broker down'')]"

section \<open>Properties of the consumer\<close>

subsection \<open>One message\<close>

lemma client_log_to [simp]: "client (log_to l m s) = client s"
  by (simp add: log_to_def)

lemma LOG_log_to [simp]: "LOG (log_to l m s) = LOG s @ [(l, m)]"
  by (simp add: log_to_def)

lemma docs_called [simp]: "docs (called k c) = docs c"
  by (simp add: called_def)

lemma index_called [simp]: "index (called k c) = index c"
  by (simp add: called_def)

lemma docs_handle_upsert_entity:
  "docs (client (handle_upsert s (Some i) p)) = (docs (client s))(Entity i \<mapsto> p)"
  by (simp add: handle_upsert_def client_index_def)

lemma docs_handle_upsert_none:
  "docs (client (handle_upsert s None p)) (Entity i) = docs (client s) (Entity i)"
  by (simp add: handle_upsert_def client_index_def)

lemma docs_handle_delete_entity:
  "docs (client (handle_delete s (Some i))) = (docs (client s))(Entity i := None)"
  by (auto simp: handle_delete_def client_delete_def)

lemma docs_handle_delete_none:
  "docs (client (handle_delete s None)) = docs (client s)"
  by (simp add: handle_delete_def client_delete_def)

lemma docs_process_message:
  "docs (client (process_message s v)) (Entity i) =
     (case change_event v of
        Some (j, c) \<Rightarrow>
          if j = i then (case c of Upsert p \<Rightarrow> Some p | Delete \<Rightarrow> None)
          else docs (client s) (Entity i)
      | None \<Rightarrow> docs (client s) (Entity i))"
proof (cases v)
  case (Not_an_object j)
  then show ?thesis
    by (simp add: process_message_def dispatch_def change_event_def)
next
  case (Event_object e)
  show ?thesis
  proof (cases "program_id e")
    case None
    with Event_object show ?thesis
      by (simp add: process_message_def dispatch_def change_event_def Let_def
          docs_handle_upsert_none docs_handle_delete_none)
  next
    case (Some j)
    with Event_object show ?thesis
      by (simp add: process_message_def dispatch_def change_event_def Let_def
          docs_handle_upsert_entity docs_handle_delete_entity)
  qed
qed

lemma docs_consume:
  "docs (client (consume s vs)) (Entity i) =
     (case last_applied_event i vs of
        None \<Rightarrow> docs (client s) (Entity i)
      | Some (Upsert p) \<Rightarrow> Some p
      | Some Delete \<Rightarrow> None)"
proof (induction vs arbitrary: s)
  case Nil
  show ?case by simp
next
  case (Cons v vs)
  show ?case
    by (simp add: Cons.IH docs_process_message split: option.splits change.splits)
qed

lemma consume_append: "consume s (xs @ ys) = consume (consume s xs) ys"
  by (induction xs arbitrary: s) simp_all



lemma handle_upsert_unfold:
  "handle_upsert s d p =
     log_to INFO (Indexed_program d (case p ''title'' of None \<Rightarrow> JStr ''Unknown'' | Some t \<Rightarrow> t))
       (s\<lparr>client := fst (client_index (client s) d p)\<rparr>)"
  by (cases d) (simp_all add: handle_upsert_def client_index_def)

lemma client_handle_upsert: "client (handle_upsert s d p) = fst (client_index (client s) d p)"
  by (simp add: handle_upsert_unfold)

lemma client_handle_delete: "client (handle_delete s d) = fst (client_delete (client s) d)"
  by (simp add: handle_delete_def split: prod.splits option.splits)

lemma client_process_message:
  "client (process_message s v) =
     (case v of
        Not_an_object j \<Rightarrow> client s
      | Event_object e \<Rightarrow>
          if op e \<in> {Some ''upsert'', Some ''create'', Some ''update''}
          then fst (client_index (client s) (program_id e)
                      (case payload_key e of None \<Rightarrow> Map.empty | Some p \<Rightarrow> p))
          else if op e = Some ''delete'' then fst (client_delete (client s) (program_id e))
          else client s)"
proof (cases v)
  case (Not_an_object j)
  then show ?thesis by (simp add: process_message_def dispatch_def)
next
  case (Event_object e)
  then show ?thesis
    by (simp add: process_message_def dispatch_def Let_def client_handle_upsert
        client_handle_delete del: insert_iff)
qed

lemma client_process_message_cong:
  "client s = client s' \<Longrightarrow> client (process_message s v) = client (process_message s' v)"
  by (simp only: client_process_message)

lemma client_consume_cong:
  "client s = client s' \<Longrightarrow> client (consume s vs) = client (consume s' vs)"
proof (induction vs arbitrary: s s')
  case Nil
  then show ?case by simp
next
  case (Cons v vs)
  have "client (process_message s v) = client (process_message s' v)"
    using Cons.prems by (rule client_process_message_cong)
  then have "client (consume (process_message s v) vs) = client (consume (process_message s' v) vs)"
    by (rule Cons.IH)
  then show ?case by simp
qed

lemma client_run_consumer_loop:
  "client (run_consumer_loop s ps) = client (consume s (concat (map delivered ps)))"
proof (induction s ps rule: run_consumer_loop.induct)
  case (1 s)
  show ?case by simp
next
  case (2 s vs ps)
  then show ?case by (simp add: consume_append)
next
  case (3 s vs e ps)
  have "client (consume (log_to ERROR (Consumer_error e) (consume s vs)) (concat (map delivered ps)))
        = client (consume (consume s vs) (concat (map delivered ps)))"
    by (rule client_consume_cong) simp
  with 3 show ?case by (simp add: consume_append)
qed

lemma docs_auto_process_message:
  assumes "\<not> upsert_without_id v"
  shows "docs (client (process_message s v)) (Auto n) = docs (client s) (Auto n)"
proof (cases v)
  case (Not_an_object j)
  then show ?thesis by (simp add: client_process_message)
next
  case (Event_object e)
  show ?thesis
  proof (cases "op e \<in> {Some ''upsert'', Some ''create'', Some ''update''}")
    case True
    with assms Event_object obtain i where "program_id e = Some i"
      by (auto simp: upsert_without_id_def simp del: insert_iff)
    with True Event_object show ?thesis
      by (simp add: client_process_message client_index_def del: insert_iff)
  next
    case False
    with Event_object show ?thesis
      by (cases "program_id e")
         (simp_all add: client_process_message client_delete_def del: insert_iff)
  qed
qed

lemma docs_auto_consume:
  "\<forall>v \<in> set vs. \<not> upsert_without_id v \<Longrightarrow>
   docs (client (consume s vs)) (Auto n) = docs (client s) (Auto n)"
  by (induction vs arbitrary: s) (simp_all add: docs_auto_process_message)

subsection \<open>The log\<close>

lemma LOG_handle_upsert: "\<exists>x. LOG (handle_upsert s d p) = LOG s @ [x]"
  by (simp add: handle_upsert_unfold)

lemma LOG_handle_delete: "\<exists>x. LOG (handle_delete s d) = LOG s @ [x]"
  by (simp add: handle_delete_def split: prod.splits option.splits)

lemma LOG_process_message:
  "\<exists>rest. LOG (process_message s v) = LOG s @ (INFO, Received_message v) # rest"
proof (cases v)
  case (Not_an_object j)
  then show ?thesis by (simp add: process_message_def dispatch_def)
next
  case (Event_object e)
  let ?s1 = "log_to INFO (Received_message v) s"
  let ?p = "case payload_key e of None \<Rightarrow> Map.empty | Some p \<Rightarrow> p"
  consider (upsert) "op e \<in> {Some ''upsert'', Some ''create'', Some ''update''}"
    | (delete) "op e \<notin> {Some ''upsert'', Some ''create'', Some ''update''}" "op e = Some ''delete''"
    | (unknown) "op e \<notin> {Some ''upsert'', Some ''create'', Some ''update''}" "op e \<noteq> Some ''delete''"
    by blast
  then show ?thesis
  proof cases
    case upsert
    then have "process_message s v = handle_upsert ?s1 (program_id e) ?p"
      using Event_object by (simp add: process_message_def dispatch_def Let_def del: insert_iff)
    moreover obtain x where "LOG (handle_upsert ?s1 (program_id e) ?p) = LOG ?s1 @ [x]"
      using LOG_handle_upsert by blast
    ultimately show ?thesis by simp
  next
    case delete
    then have "process_message s v = handle_delete ?s1 (program_id e)"
      using Event_object by (simp add: process_message_def dispatch_def Let_def del: insert_iff)
    moreover obtain x where "LOG (handle_delete ?s1 (program_id e)) = LOG ?s1 @ [x]"
      using LOG_handle_delete by blast
    ultimately show ?thesis by simp
  next
    case unknown
    then have "process_message s v = log_to WARNING (Unknown_operation (op e)) ?s1"
      using Event_object by (simp add: process_message_def dispatch_def Let_def del: insert_iff)
    then show ?thesis by simp
  qed
qed

lemma LOG_consume_grows: "\<exists>rest. LOG (consume s vs) = LOG s @ rest"
proof (induction vs arbitrary: s)
  case Nil
  show ?case by simp
next
  case (Cons v vs)
  obtain r1 where r1: "LOG (process_message s v) = LOG s @ (INFO, Received_message v) # r1"
    using LOG_process_message by blast
  obtain r2 where "LOG (consume (process_message s v) vs) = LOG (process_message s v) @ r2"
    using Cons.IH by blast
  with r1 show ?case by simp
qed

lemma received_consume:
  "v \<in> set vs \<Longrightarrow> (INFO, Received_message v) \<in> set (LOG (consume s vs))"
proof (induction vs arbitrary: s)
  case Nil
  then show ?case by simp
next
  case (Cons w vs)
  show ?case
  proof (cases "v = w")
    case True
    obtain r1 where r1: "LOG (process_message s w) = LOG s @ (INFO, Received_message w) # r1"
      using LOG_process_message by blast
    obtain r2 where "LOG (consume (process_message s w) vs) = LOG (process_message s w) @ r2"
      using LOG_consume_grows by blast
    with r1 True show ?thesis by simp
  next
    case False
    with Cons.prems have "v \<in> set vs" by simp
    then show ?thesis by (simp add: Cons.IH)
  qed
qed

lemma LOG_run_consumer_loop_grows: "\<exists>rest. LOG (run_consumer_loop s ps) = LOG s @ rest"
proof (induction s ps rule: run_consumer_loop.induct)
  case (1 s)
  show ?case by simp
next
  case (2 s vs ps)
  obtain r1 where "LOG (consume s vs) = LOG s @ r1" using LOG_consume_grows by blast
  moreover obtain r2 where "LOG (run_consumer_loop (consume s vs) ps) = LOG (consume s vs) @ r2"
    using 2 by blast
  ultimately show ?case by simp
next
  case (3 s vs e ps)
  obtain r1 where "LOG (consume s vs) = LOG s @ r1" using LOG_consume_grows by blast
  moreover obtain r2 where
    "LOG (run_consumer_loop (log_to ERROR (Consumer_error e) (consume s vs)) ps)
       = LOG (log_to ERROR (Consumer_error e) (consume s vs)) @ r2"
    using 3 by blast
  ultimately show ?case by simp
qed

lemma received_run_consumer_loop:
  "v \<in> set (concat (map delivered ps)) \<Longrightarrow>
   (INFO, Received_message v) \<in> set (LOG (run_consumer_loop s ps))"
proof (induction s ps rule: run_consumer_loop.induct)
  case (1 s)
  then show ?case by simp
next
  case (2 s vs ps)
  show ?case
  proof (cases "v \<in> set vs")
    case True
    then have "(INFO, Received_message v) \<in> set (LOG (consume s vs))"
      by (rule received_consume)
    moreover obtain r where "LOG (run_consumer_loop (consume s vs) ps) = LOG (consume s vs) @ r"
      using LOG_run_consumer_loop_grows by blast
    ultimately show ?thesis by simp
  next
    case False
    with 2 show ?thesis by simp
  qed
next
  case (3 s vs e ps)
  show ?case
  proof (cases "v \<in> set vs")
    case True
    then have "(INFO, Received_message v) \<in> set (LOG (consume s vs))"
      by (rule received_consume)
    moreover obtain r where
      "LOG (run_consumer_loop (log_to ERROR (Consumer_error e) (consume s vs)) ps)
         = LOG (log_to ERROR (Consumer_error e) (consume s vs)) @ r"
      using LOG_run_consumer_loop_grows by blast
    ultimately show ?thesis by simp
  next
    case False
    with 3 show ?thesis by simp
  qed
qed

subsection \<open>The documents after a run\<close>

lemma docs_run_consumer_loop:
  "docs (client (run_consumer_loop s ps)) (Entity i) =
     (case last_applied_event i (concat (map delivered ps)) of
        None \<Rightarrow> docs (client s) (Entity i)
      | Some (Upsert p) \<Rightarrow> Some p
      | Some Delete \<Rightarrow> None)"
  by (simp only: client_run_consumer_loop docs_consume)

lemma docs_auto_run_consumer_loop:
  "\<forall>v \<in> set (concat (map delivered ps)). \<not> upsert_without_id v \<Longrightarrow>
   docs (client (run_consumer_loop s ps)) (Auto n) = docs (client s) (Auto n)"
  by (simp only: client_run_consumer_loop docs_auto_consume)


subsection \<open>The claims about the consumer\<close>

lemmas example_defs =
  upsert_5_def create_7_def delete_5_def archive_5_def example_polls_def
  fresh_state_def fresh_engine_def blank_state_def blank_engine_def

text \<open>
  C1. After any sequence of polls, however the messages are spread over them, the index
  holds no document for an entity whose last change event was a delete. If the run
  started on an empty index and every upsert message names its entity, the documents of
  the index are documents of entities whose last change event was an upsert. The polls
  are arbitrary, so this holds at every point of a run.
\<close>

theorem index_documents_invariant:
  "(last_applied_event i (concat (map delivered ps)) = Some Delete \<longrightarrow>
      docs (client (run_consumer_loop s ps)) (Entity i) = None) \<and>
   (docs (client s) = Map.empty \<and>
    (\<forall>v \<in> set (concat (map delivered ps)). \<not> upsert_without_id v) \<longrightarrow>
      dom (docs (client (run_consumer_loop s ps))) \<subseteq>
        Entity ` {j. \<exists>p. last_applied_event j (concat (map delivered ps)) = Some (Upsert p)})"
proof (intro conjI impI)
  assume "last_applied_event i (concat (map delivered ps)) = Some Delete"
  then show "docs (client (run_consumer_loop s ps)) (Entity i) = None"
    by (simp add: docs_run_consumer_loop)
next
  assume a: "docs (client s) = Map.empty \<and>
    (\<forall>v \<in> set (concat (map delivered ps)). \<not> upsert_without_id v)"
  show "dom (docs (client (run_consumer_loop s ps))) \<subseteq>
        Entity ` {j. \<exists>p. last_applied_event j (concat (map delivered ps)) = Some (Upsert p)}"
  proof
    fix k
    assume k: "k \<in> dom (docs (client (run_consumer_loop s ps)))"
    show "k \<in> Entity ` {j. \<exists>p. last_applied_event j (concat (map delivered ps)) = Some (Upsert p)}"
    proof (cases k)
      case (Entity j)
      with k have "docs (client (run_consumer_loop s ps)) (Entity j) \<noteq> None"
        by (simp add: dom_def)
      then have "\<exists>p. last_applied_event j (concat (map delivered ps)) = Some (Upsert p)"
        using a by (simp add: docs_run_consumer_loop split: option.splits change.splits)
      with Entity show ?thesis by blast
    next
      case (Auto n)
      have "docs (client (run_consumer_loop s ps)) (Auto n) = docs (client s) (Auto n)"
        by (rule docs_auto_run_consumer_loop) (use a in blast)
      with a have "docs (client (run_consumer_loop s ps)) (Auto n) = None" by simp
      with k Auto show ?thesis by (simp add: dom_def)
    qed
  qed
qed


text \<open>An instance: entity 5 is upserted and later deleted, entity 7 is created, over two polls.\<close>

theorem index_documents_invariant_witness:
  "last_applied_event 5 (concat (map delivered example_polls)) = Some Delete \<and>
   docs (client (run_consumer_loop fresh_state example_polls)) (Entity 5) = None \<and>
   dom (docs (client (run_consumer_loop fresh_state example_polls))) \<subseteq>
     Entity ` {j. \<exists>p. last_applied_event j (concat (map delivered example_polls)) = Some (Upsert p)}"
proof -
  have h1: "last_applied_event 5 (concat (map delivered example_polls)) = Some Delete"
    by (simp add: example_defs change_event_def)
  have h2: "docs (client fresh_state) = Map.empty"
    by (simp add: example_defs)
  have h3: "\<forall>v \<in> set (concat (map delivered example_polls)). \<not> upsert_without_id v"
    by (simp add: example_defs upsert_without_id_def)
  show ?thesis
    using index_documents_invariant [of 5 example_polls fresh_state] h1 h2 h3 by blast
qed

text \<open>
  C3. An upsert of entity \<open>i\<close> with payload \<open>A\<close> (under any of its three spellings)
  followed by a delete of \<open>i\<close>: after the upsert the document is found with payload
  \<open>A\<close>, after the delete it is not found.
\<close>

theorem upsert_then_delete_not_found:
  "u \<in> {''upsert'', ''create'', ''update''} \<Longrightarrow>
   docs (client (consume s [Event_object \<lparr>op = Some u, program_id = Some i, payload_key = Some A\<rparr>]))
     (Entity i) = Some A \<and>
   docs (client (consume s
           [Event_object \<lparr>op = Some u, program_id = Some i, payload_key = Some A\<rparr>,
            Event_object \<lparr>op = Some ''delete'', program_id = Some i, payload_key = pd\<rparr>]))
     (Entity i) = None"
  by (auto simp: docs_process_message change_event_def)


text \<open>An instance, with the spelling \<^verbatim>\<open>create\<close>.\<close>

theorem upsert_then_delete_not_found_witness:
  "docs (client (consume fresh_state
      [Event_object \<lparr>op = Some ''create'', program_id = Some 5, payload_key = Some coffee_payload\<rparr>]))
     (Entity 5) = Some coffee_payload \<and>
   docs (client (consume fresh_state
      [Event_object \<lparr>op = Some ''create'', program_id = Some 5, payload_key = Some coffee_payload\<rparr>,
       Event_object \<lparr>op = Some ''delete'', program_id = Some 5, payload_key = None\<rparr>]))
     (Entity 5) = None"
proof -
  have h: "''create'' \<in> {''upsert'', ''create'', ''update''}" by simp
  show ?thesis
    by (rule upsert_then_delete_not_found [OF h])
qed

text \<open>
  C6. A message whose operation tag is none of upsert, create, update, delete (or is
  missing): the dispatch raises nothing, logs the message and a warning, and makes no
  client call, so the engine is as it was; the loop goes on from there, and every later
  message of the poll is received.
\<close>

theorem unknown_operation_skipped:
  assumes "op e \<notin> {Some ''upsert'', Some ''create'', Some ''update'', Some ''delete''}"
  shows "dispatch s (Event_object e) =
           (s\<lparr>LOG := LOG s @ [(INFO, Received_message (Event_object e)),
                              (WARNING, Unknown_operation (op e))]\<rparr>, None) \<and>
         client (process_message s (Event_object e)) = client s \<and>
         consume s (before @ Event_object e # after) =
           consume ((consume s before)
                      \<lparr>LOG := LOG (consume s before) @
                         [(INFO, Received_message (Event_object e)),
                          (WARNING, Unknown_operation (op e))]\<rparr>) after \<and>
         (\<forall>v \<in> set after.
            (INFO, Received_message v) \<in> set (LOG (consume s (before @ Event_object e # after))))"
proof -
  have d: "dispatch t (Event_object e) =
           (t\<lparr>LOG := LOG t @ [(INFO, Received_message (Event_object e)),
                              (WARNING, Unknown_operation (op e))]\<rparr>, None)" for t
    using assms by (simp add: dispatch_def Let_def log_to_def)
  then have p: "process_message t (Event_object e) =
           t\<lparr>LOG := LOG t @ [(INFO, Received_message (Event_object e)),
                              (WARNING, Unknown_operation (op e))]\<rparr>" for t
    by (simp add: process_message_def)
  have "consume s (before @ Event_object e # after) =
          consume (process_message (consume s before) (Event_object e)) after"
    by (simp add: consume_append)
  moreover have "\<forall>v \<in> set after.
      (INFO, Received_message v) \<in> set (LOG (consume s (before @ Event_object e # after)))"
    by (simp add: received_consume)
  ultimately show ?thesis using d p by simp
qed


text \<open>An instance: the tag \<^verbatim>\<open>archive\<close> between two upserts.\<close>

theorem unknown_operation_skipped_witness:
  "client (process_message fresh_state archive_5) = client fresh_state \<and>
   (INFO, Received_message create_7) \<in> set (LOG (consume fresh_state [upsert_5, archive_5, create_7]))"
proof -
  have h: "op \<lparr>op = Some ''archive'', program_id = Some 5, payload_key = None\<rparr>
             \<notin> {Some ''upsert'', Some ''create'', Some ''update'', Some ''delete''}"
    by simp
  note t = unknown_operation_skipped [OF h, of fresh_state "[upsert_5]" "[create_7]"]
  have "client (process_message fresh_state archive_5) = client fresh_state"
    unfolding archive_5_def by (rule t [THEN conjunct2, THEN conjunct1])
  moreover have "(INFO, Received_message create_7) \<in>
      set (LOG (consume fresh_state [upsert_5, archive_5, create_7]))"
    using t [THEN conjunct2, THEN conjunct2, THEN conjunct2] by (simp add: archive_5_def)
  ultimately show ?thesis by (rule conjI)
qed

text \<open>
  C7. A delete for an entity that has no document: the handler logs the engine's
  not-found error as a warning and raises nothing, the documents and the index are as
  they were, and the loop goes on: every later message of the poll is received.
\<close>

theorem delete_absent_is_warning:
  assumes "docs (client s) (Entity i) = None"
    and "op e = Some ''delete''"
    and "program_id e = Some i"
  shows "handle_delete s (Some i) =
           s\<lparr>client := called (Delete_call (Some i)) (client s),
              LOG := LOG s @ [(WARNING, Delete_failed (Some i) NotFoundError)]\<rparr> \<and>
         snd (dispatch s (Event_object e)) = None \<and>
         docs (client (process_message s (Event_object e))) = docs (client s) \<and>
         index (client (process_message s (Event_object e))) = index (client s) \<and>
         LOG (process_message s (Event_object e)) =
           LOG s @ [(INFO, Received_message (Event_object e)),
                    (WARNING, Delete_failed (Some i) NotFoundError)] \<and>
         consume s (Event_object e # after) = consume (process_message s (Event_object e)) after \<and>
         (\<forall>v \<in> set after. (INFO, Received_message v) \<in> set (LOG (consume s (Event_object e # after))))"
proof -
  have h: "handle_delete t (Some i) =
           t\<lparr>client := called (Delete_call (Some i)) (client t),
              LOG := LOG t @ [(WARNING, Delete_failed (Some i) NotFoundError)]\<rparr>"
    if "docs (client t) (Entity i) = None" for t
    using that by (simp add: handle_delete_def client_delete_def log_to_def)
  have d: "dispatch s (Event_object e) =
             (handle_delete (log_to INFO (Received_message (Event_object e)) s) (Some i), None)"
    using assms by (simp add: dispatch_def Let_def)
  have h1: "handle_delete (log_to INFO (Received_message (Event_object e)) s) (Some i) =
            (log_to INFO (Received_message (Event_object e)) s)
              \<lparr>client := called (Delete_call (Some i)) (client s),
               LOG := LOG s @ [(INFO, Received_message (Event_object e)),
                               (WARNING, Delete_failed (Some i) NotFoundError)]\<rparr>"
    using h [of "log_to INFO (Received_message (Event_object e)) s"] assms(1) by simp
  have p: "process_message s (Event_object e) =
            (log_to INFO (Received_message (Event_object e)) s)
              \<lparr>client := called (Delete_call (Some i)) (client s),
               LOG := LOG s @ [(INFO, Received_message (Event_object e)),
                               (WARNING, Delete_failed (Some i) NotFoundError)]\<rparr>"
    using d h1 by (simp add: process_message_def)
  have r: "\<forall>v \<in> set after.
      (INFO, Received_message v) \<in> set (LOG (consume s (Event_object e # after)))"
    using received_consume [of _ "Event_object e # after" s] by simp
  show ?thesis
    using h [OF assms(1)] d p r by simp
qed

text \<open>An instance: a delete of entity 5 on an index without documents.\<close>

theorem delete_absent_is_warning_witness:
  "docs (client fresh_state) (Entity 5) = None \<and>
   LOG (process_message fresh_state delete_5) =
     [(INFO, Received_message delete_5), (WARNING, Delete_failed (Some 5) NotFoundError)] \<and>
   docs (client (process_message fresh_state delete_5)) (Entity 5) = None \<and>
   (INFO, Received_message create_7) \<in> set (LOG (consume fresh_state [delete_5, create_7]))"
proof -
  have h1: "docs (client fresh_state) (Entity 5) = None"
    by (simp add: example_defs)
  have h2: "op \<lparr>op = Some ''delete'', program_id = Some 5, payload_key = Some Map.empty\<rparr>
              = Some ''delete''"
    by simp
  have h3: "program_id \<lparr>op = Some ''delete'', program_id = Some 5, payload_key = Some Map.empty\<rparr>
              = Some 5"
    by simp
  have l: "LOG fresh_state = []" by (simp add: example_defs)
  note t = delete_absent_is_warning [OF h1 h2 h3, of "[create_7]"]
  note t3 = t [THEN conjunct2, THEN conjunct2]
  note t5 = t3 [THEN conjunct2, THEN conjunct2]
  have "LOG (process_message fresh_state delete_5) =
     [(INFO, Received_message delete_5), (WARNING, Delete_failed (Some 5) NotFoundError)]"
    using t5 [THEN conjunct1] l by (simp add: delete_5_def)
  moreover have "docs (client (process_message fresh_state delete_5)) (Entity 5) = None"
    using t3 [THEN conjunct1] h1 by (simp add: delete_5_def)
  moreover have "(INFO, Received_message create_7) \<in>
      set (LOG (consume fresh_state [delete_5, create_7]))"
    using t5 [THEN conjunct2, THEN conjunct2] by (simp add: delete_5_def)
  ultimately show ?thesis using h1 by blast
qed

text \<open>
  C8. Replaying an upsert event: the upsert handler applied twice in succession with the
  same entity id and payload leaves the same documents in the index as applying it once;
  the write is keyed by the entity id and replaces the document in place.
\<close>

theorem handle_upsert_idempotent:
  "docs (client (handle_upsert (handle_upsert s (Some i) p) (Some i) p)) =
   docs (client (handle_upsert s (Some i) p))"
  by (simp add: docs_handle_upsert_entity)

section \<open>Properties of index creation\<close>

text \<open>
  C2, as the code has it. At consumer startup \<open>create_index_if_not_exists\<close> asks whether the
  index exists and creates it with \<open>INDEX_BODY\<close> only when it does not; an index that
  exists is left as it is, and the only call made is the existence check. The operator
  command creates the index from the mapping file when it does not exist, but when it exists
  the command deletes it, with its documents, and creates it again from the mapping file;
  without a mapping file the command does nothing.
\<close>

theorem index_creation_operations:
  "(index (client s) \<noteq> None \<longrightarrow>
      create_index_if_not_exists s =
        (s\<lparr>client := called Exists_call (client s),
           LOG := LOG s @ [(INFO, Index_already_exists)]\<rparr>, None)) \<and>
   (index (client s) = None \<longrightarrow>
      create_index_if_not_exists s =
        (s\<lparr>client := (client s)\<lparr>index := Some INDEX_BODY,
                                  calls := calls (client s) @ [Exists_call, Create_call INDEX_BODY]\<rparr>,
           LOG := LOG s @ [(INFO, Created_index)]\<rparr>, None)) \<and>
   (index c = None \<longrightarrow>
      Command_handle (Some m) c =
        (c\<lparr>index := Some m, calls := calls c @ [Exists_call, Create_call m]\<rparr>,
         [Created_index_success], None)) \<and>
   (index c \<noteq> None \<longrightarrow>
      Command_handle (Some m) c =
        (c\<lparr>index := Some m, docs := Map.empty,
           calls := calls c @ [Exists_call, Delete_index_call, Create_call m]\<rparr>,
         [Already_exists_deleting_and_recreating, Created_index_success], None)) \<and>
   Command_handle None c = (c, [Mapping_file_not_found], None)"
  by (auto simp: create_index_if_not_exists_def Command_handle_def indices_exists_def
      indices_create_def indices_delete_def called_def log_to_def)

text \<open>Instances: an index that exists, and one that does not, for both operations.\<close>

theorem index_creation_operations_witness:
  "index (client (fst (create_index_if_not_exists fresh_state))) = Some INDEX_BODY \<and>
   calls (client (fst (create_index_if_not_exists fresh_state))) = [Exists_call] \<and>
   index (client (fst (create_index_if_not_exists blank_state))) = Some INDEX_BODY \<and>
   calls (client (fst (create_index_if_not_exists blank_state))) =
     [Exists_call, Create_call INDEX_BODY] \<and>
   index (fst (Command_handle (Some other_mapping) blank_engine)) = Some other_mapping \<and>
   calls (fst (Command_handle (Some other_mapping) indexed_engine)) =
     [Exists_call, Delete_index_call, Create_call other_mapping]"
proof -
  have h1: "index (client fresh_state) \<noteq> None" and h2: "index (client blank_state) = None"
    and h3: "index blank_engine = None" and h4: "index indexed_engine \<noteq> None"
    by (simp_all add: example_defs indexed_engine_def)
  have c: "calls (client fresh_state) = []" "calls (client blank_state) = []"
    "calls indexed_engine = []" "index (client fresh_state) = Some INDEX_BODY"
    by (simp_all add: example_defs indexed_engine_def)
  show ?thesis
    using index_creation_operations [of fresh_state blank_engine other_mapping]
      index_creation_operations [of blank_state indexed_engine other_mapping] h1 h2 h3 h4 c
    by (simp add: called_def)
qed

text \<open>
  The operator command on an index that exists, with a mapping file that differs from the
  mapping of the index: the mapping of the index is replaced and its document is gone.
\<close>

theorem command_recreates_existing_index:
  "index indexed_engine = Some INDEX_BODY \<and>
   docs indexed_engine (Entity 1) = Some coffee_payload \<and>
   index (fst (Command_handle (Some other_mapping) indexed_engine)) = Some other_mapping \<and>
   other_mapping \<noteq> INDEX_BODY \<and>
   docs (fst (Command_handle (Some other_mapping) indexed_engine)) (Entity 1) = None \<and>
   calls (fst (Command_handle (Some other_mapping) indexed_engine)) =
     [Exists_call, Delete_index_call, Create_call other_mapping]"
  by (simp add: Command_handle_def indices_exists_def indices_create_def indices_delete_def
      called_def indexed_engine_def other_mapping_def INDEX_BODY_def)

section \<open>Properties of the search view\<close>

lemma ceiling_division:
  assumes "0 < (b::int)"
  shows "(a + b - 1) div b = \<lceil>real_of_int a / real_of_int b\<rceil>"
proof -
  define q where "q = (a + b - 1) div b"
  define r where "r = (a + b - 1) mod b"
  have m: "a + b - 1 = q * b + r"
    by (simp add: q_def r_def)
  have r0: "0 \<le> r" and rb: "r < b"
    using assms by (simp_all add: r_def)
  have lo: "(q - 1) * b < a"
    using m r0 by (simp add: algebra_simps)
  have hi: "a \<le> q * b"
    using m rb by (simp add: algebra_simps)
  have "real_of_int ((q - 1) * b) < real_of_int a"
    using lo by (simp only: of_int_less_iff)
  then have "(real_of_int q - 1) * real_of_int b < real_of_int a"
    by simp
  then have lo': "real_of_int q - 1 < real_of_int a / real_of_int b"
    using assms by (simp add: pos_less_divide_eq)
  have "real_of_int a \<le> real_of_int (q * b)"
    using hi by (simp only: of_int_le_iff)
  then have "real_of_int a \<le> real_of_int q * real_of_int b"
    by simp
  then have hi': "real_of_int a / real_of_int b \<le> real_of_int q"
    using assms by (simp add: pos_divide_le_eq)
  have "\<lceil>real_of_int a / real_of_int b\<rceil> = q"
    using lo' hi' by (rule ceiling_unique)
  then show ?thesis by (simp add: q_def)
qed

lemma results_of_hits_ok:
  "\<forall>h \<in> set hs. hit_source h \<noteq> None \<Longrightarrow> \<exists>rs. results_of_hits hs = Inr rs"
proof (induction hs)
  case Nil
  show ?case by simp
next
  case (Cons h hs)
  then obtain rs where "results_of_hits hs = Inr rs" by auto
  moreover from Cons.prems obtain src where "hit_source h = Some src" by auto
  ultimately show ?case by (simp add: result_of_hit_def)
qed

lemma query_of_request:
  "GET request ''q'' = Some q \<Longrightarrow> str_param request ''q'' [] = q"
  by (simp add: str_param_def)

lemma search_try_ok:
  assumes "int_param request ''page'' 1 = Inr page"
    and "int_param request ''page_size'' 20 = Inr n"
    and "min n 100 \<noteq> 0"
    and "client_search (build_search_body request q page (min n 100)) = Inr response"
    and "results_of_hits (resp_hits response) = Inr rs"
  shows "\<exists>d. search_try client_search request q =
           (Inr d, [build_search_body request q page (min n 100)]) \<and>
         data_page d = page \<and> data_page_size d = min n 100 \<and>
         data_total d = resp_total response \<and>
         data_total_pages d = (resp_total response + min n 100 - 1) div min n 100"
  using assms by (simp add: search_try_def Let_def floordiv_def)

lemma exact_match_filter_queries:
  "filter exact_match_clause (filter_queries request) =
     concat (map (\<lambda>f. case GET request f of
                          Some v \<Rightarrow> if v \<noteq> [] then [Term f v] else []
                        | None \<Rightarrow> [])
               [''category'', ''language'', ''media_type''])"
  by (simp add: filter_queries_def Let_def split: option.splits)

lemma search_try_sent:
  assumes "int_param request ''page'' 1 = Inr page"
    and "int_param request ''page_size'' 20 = Inr n"
  shows "snd (search_try client_search request q) = [build_search_body request q page (min n 100)]"
  using assms
  by (simp add: search_try_def Let_def split: sum.splits)

lemma py_int_error: "py_int v = Inl e \<Longrightarrow> e = ValueError"
  by (auto simp: py_int_def Let_def split: option.splits prod.splits)

lemma py_int_zero: "py_int ''0'' = Inr 0"
  by (simp add: py_int_def strip_def is_space_def decimal_def digit_value_def)

lemmas py_int_eval = py_int_def strip_def is_space_def decimal_def digit_value_def

text \<open>
  C4. A request whose \<^verbatim>\<open>q\<close> is missing or empty gets status 400 with an error message,
  and nothing is sent to the engine, whatever the engine is.
\<close>

theorem missing_query_rejected:
  "GET request ''q'' = None \<or> GET request ''q'' = Some [] \<Longrightarrow>
   SearchView_get client_search request =
     (\<lparr>status = 400, data = Error_data ''Query parameter 'q' is required'' None\<rparr>, [])"
  by (auto simp: SearchView_get_def str_param_def HTTP_400_BAD_REQUEST_def)

text \<open>Instances: no \<^verbatim>\<open>q\<close>, and an empty \<^verbatim>\<open>q\<close>.\<close>

theorem missing_query_rejected_witness:
  "SearchView_get engine_down (query_request []) =
     (\<lparr>status = 400, data = Error_data ''Query parameter 'q' is required'' None\<rparr>, []) \<and>
   SearchView_get engine_down (query_request [(''q'', [])]) =
     (\<lparr>status = 400, data = Error_data ''Query parameter 'q' is required'' None\<rparr>, [])"
proof -
  have h1: "GET (query_request []) ''q'' = None \<or> GET (query_request []) ''q'' = Some []"
    by (simp add: query_request_def)
  have h2: "GET (query_request [(''q'', [])]) ''q'' = None \<or>
            GET (query_request [(''q'', [])]) ''q'' = Some []"
    by (simp add: query_request_def)
  show ?thesis
    using missing_query_rejected [OF h1, of engine_down]
      missing_query_rejected [OF h2, of engine_down] by simp
qed

text \<open>
  C5. For a request with a query, a page number and a page size of at least 1 (read with
  their defaults 1 and 20), the page size used is the requested one clamped to 100, the
  engine receives the offset \<open>(page - 1) * page_size\<close> and that size, and when the engine
  answers, the response carries \<open>total_pages\<close> equal to the ceiling of the total number of
  hits divided by the page size.
\<close>

theorem pagination:
  assumes "GET request ''q'' = Some q" and "q \<noteq> []"
    and "int_param request ''page'' 1 = Inr page"
    and "int_param request ''page_size'' 20 = Inr n"
    and "1 \<le> n"
    and "client_search (build_search_body request q page (min n 100)) = Inr response"
    and "\<forall>h \<in> set (resp_hits response). hit_source h \<noteq> None"
  shows "\<exists>d. SearchView_get client_search request =
           (\<lparr>status = 200, data = Search_data d\<rparr>,
            [build_search_body request q page (min n 100)]) \<and>
         body_from (build_search_body request q page (min n 100)) = (page - 1) * min n 100 \<and>
         body_size (build_search_body request q page (min n 100)) = min n 100 \<and>
         data_page_size d = min n 100 \<and> data_page_size d \<le> 100 \<and>
         data_total_pages d =
           \<lceil>real_of_int (resp_total response) / real_of_int (data_page_size d)\<rceil>"
proof -
  from assms(7) obtain rs where rs: "results_of_hits (resp_hits response) = Inr rs"
    using results_of_hits_ok by blast
  have pos: "0 < min n 100" using assms(5) by simp
  then have nz: "min n 100 \<noteq> 0" by simp
  obtain d where d: "search_try client_search request q =
           (Inr d, [build_search_body request q page (min n 100)])"
    and ps: "data_page_size d = min n 100"
    and tp: "data_total_pages d = (resp_total response + min n 100 - 1) div min n 100"
    using search_try_ok [where client_search = client_search and q = q, OF assms(3) assms(4) nz assms(6) rs]
    by blast
  have view: "SearchView_get client_search request =
           (\<lparr>status = 200, data = Search_data d\<rparr>,
            [build_search_body request q page (min n 100)])"
    using assms(1) assms(2) d
    by (simp add: SearchView_get_def query_of_request HTTP_200_OK_def)
  have ceil: "data_total_pages d =
           \<lceil>real_of_int (resp_total response) / real_of_int (data_page_size d)\<rceil>"
    using tp ps ceiling_division [OF pos] by simp
  have "body_from (build_search_body request q page (min n 100)) = (page - 1) * min n 100"
    and "body_size (build_search_body request q page (min n 100)) = min n 100"
    by (simp_all add: build_search_body_def Let_def)
  with view ps ceil show ?thesis by simp
qed

text \<open>The instance of the claim: 25 hits, page 2, page size 10 give offset 10 and 3 pages.\<close>

theorem pagination_witness:
  "\<exists>d. SearchView_get (engine_with_total 25)
          (query_request [(''q'', ''test''), (''page'', ''2''), (''page_size'', ''10'')]) =
         (\<lparr>status = 200, data = Search_data d\<rparr>,
          [build_search_body
             (query_request [(''q'', ''test''), (''page'', ''2''), (''page_size'', ''10'')])
             ''test'' 2 10]) \<and>
       body_from (build_search_body
             (query_request [(''q'', ''test''), (''page'', ''2''), (''page_size'', ''10'')])
             ''test'' 2 10) = 10 \<and>
       data_page_size d = 10 \<and> data_total_pages d = 3"
proof -
  let ?r = "query_request [(''q'', ''test''), (''page'', ''2''), (''page_size'', ''10'')]"
  have q: "GET ?r ''q'' = Some ''test''" and ne: "''test'' \<noteq> []"
    by (simp_all add: query_request_def)
  have p: "int_param ?r ''page'' 1 = Inr 2"
    by (simp add: int_param_def query_request_def py_int_eval)
  have n: "int_param ?r ''page_size'' 20 = Inr 10"
    by (simp add: int_param_def query_request_def py_int_eval)
  have pos: "(1::int) \<le> 10" by simp
  have e: "engine_with_total 25 (build_search_body ?r ''test'' 2 (min 10 100)) =
             Inr \<lparr>resp_hits = [], resp_total = 25, resp_took = 5, resp_aggregations = JObject []\<rparr>"
    by (simp add: engine_with_total_def)
  have hs: "\<forall>h \<in> set (resp_hits \<lparr>resp_hits = [], resp_total = 25, resp_took = 5,
                                   resp_aggregations = JObject []\<rparr>). hit_source h \<noteq> None"
    by simp
  have c: "\<lceil>(25::real) / 10\<rceil> = 3" by (simp add: ceiling_eq_iff)
  show ?thesis
    using pagination [where client_search = "engine_with_total 25", OF q ne p n pos e hs] c
    by auto
qed

text \<open>
  C9. The query sent to the engine has, among its filter clauses, exactly one exact-match
  clause for each of \<^verbatim>\<open>category\<close>, \<^verbatim>\<open>language\<close> and \<^verbatim>\<open>media_type\<close> that the request
  provides (with a non-empty value), in that order, and none for the others; when the
  request gives no duration bound, no publish-date bound and no tags, these are all the
  filter clauses of the query.
\<close>

theorem exact_match_filters:
  assumes "GET request ''q'' = Some q" and "q \<noteq> []"
    and "int_param request ''page'' 1 = Inr page"
    and "int_param request ''page_size'' 20 = Inr n"
  shows "snd (SearchView_get client_search request) =
           [build_search_body request q page (min n 100)] \<and>
         filter exact_match_clause
           (body_filter (build_search_body request q page (min n 100))) =
           concat (map (\<lambda>f. case GET request f of
                                Some v \<Rightarrow> if v \<noteq> [] then [Term f v] else []
                              | None \<Rightarrow> [])
                     [''category'', ''language'', ''media_type'']) \<and>
         ((\<forall>k \<in> set [''duration_min'', ''duration_max'', ''publish_date_from'',
                       ''publish_date_to'', ''tags'']. \<not> truthy (GET request k)) \<longrightarrow>
          body_filter (build_search_body request q page (min n 100)) =
            concat (map (\<lambda>f. case GET request f of
                                 Some v \<Rightarrow> if v \<noteq> [] then [Term f v] else []
                               | None \<Rightarrow> [])
                      [''category'', ''language'', ''media_type'']))"
proof -
  have "snd (SearchView_get client_search request) = snd (search_try client_search request q)"
    using assms(1) assms(2)
    by (simp add: SearchView_get_def query_of_request split: prod.splits sum.splits)
  then have sent: "snd (SearchView_get client_search request) =
           [build_search_body request q page (min n 100)]"
    using search_try_sent [OF assms(3) assms(4)] by simp
  have bf: "body_filter (build_search_body request q page (min n 100)) = filter_queries request"
    by (simp add: build_search_body_def Let_def)
  have only: "filter_queries request =
            concat (map (\<lambda>f. case GET request f of
                                 Some v \<Rightarrow> if v \<noteq> [] then [Term f v] else []
                               | None \<Rightarrow> [])
                      [''category'', ''language'', ''media_type''])"
    if "\<forall>k \<in> set [''duration_min'', ''duration_max'', ''publish_date_from'',
                     ''publish_date_to'', ''tags'']. \<not> truthy (GET request k)"
    using that by (auto simp: filter_queries_def Let_def truthy_def split: option.splits)
  show ?thesis
    using sent only by (simp only: bf exact_match_filter_queries) blast
qed

text \<open>The instance of the claim: \<^verbatim>\<open>category=Technology\<close> and \<^verbatim>\<open>language=English\<close> give two exact-match clauses and no other filter clause.\<close>

theorem exact_match_filters_witness:
  "snd (SearchView_get engine_down
          (query_request [(''q'', ''coffee''), (''category'', ''Technology''),
                          (''language'', ''English'')])) =
     [build_search_body
        (query_request [(''q'', ''coffee''), (''category'', ''Technology''),
                        (''language'', ''English'')]) ''coffee'' 1 20] \<and>
   body_filter (build_search_body
        (query_request [(''q'', ''coffee''), (''category'', ''Technology''),
                        (''language'', ''English'')]) ''coffee'' 1 20) =
     [Term ''category'' ''Technology'', Term ''language'' ''English'']"
proof -
  let ?r = "query_request [(''q'', ''coffee''), (''category'', ''Technology''),
                           (''language'', ''English'')]"
  have q: "GET ?r ''q'' = Some ''coffee''" and ne: "''coffee'' \<noteq> []"
    by (simp_all add: query_request_def)
  have p: "int_param ?r ''page'' 1 = Inr 1"
    by (simp add: int_param_def query_request_def)
  have n: "int_param ?r ''page_size'' 20 = Inr 20"
    by (simp add: int_param_def query_request_def)
  have g: "GET ?r ''category'' = Some ''Technology''" "GET ?r ''language'' = Some ''English''"
    "GET ?r ''media_type'' = None"
    by (simp_all add: query_request_def)
  have none: "\<forall>k \<in> set [''duration_min'', ''duration_max'', ''publish_date_from'',
                        ''publish_date_to'', ''tags'']. \<not> truthy (GET ?r k)"
    by (simp add: query_request_def truthy_def)
  note t = exact_match_filters [OF q ne p n, of engine_down]
  have "snd (SearchView_get engine_down ?r) = [build_search_body ?r ''coffee'' 1 20]"
    using t [THEN conjunct1] by simp
  moreover have "body_filter (build_search_body ?r ''coffee'' 1 20) =
     [Term ''category'' ''Technology'', Term ''language'' ''English'']"
    using t [THEN conjunct2, THEN conjunct2] none g by simp
  ultimately show ?thesis by (rule conjI)
qed

text \<open>
  C10. With a non-empty \<^verbatim>\<open>q\<close>, \<^verbatim>\<open>page_size=0\<close> always ends in status 500; when the page
  number is readable and the engine answers, the error is the division by zero of the
  total-pages computation, raised after the search was sent. A page or page size that
  \<^verbatim>\<open>int\<close> cannot read ends in status 500 with \<^verbatim>\<open>ValueError\<close> before anything is sent.
\<close>

theorem unvalidated_page_size_is_server_error:
  assumes "GET request ''q'' = Some q" and "q \<noteq> []"
  shows "(GET request ''page_size'' = Some ''0'' \<longrightarrow>
            status (fst (SearchView_get client_search request)) = 500) \<and>
         (GET request ''page_size'' = Some ''0'' \<and>
          int_param request ''page'' 1 = Inr page \<and>
          client_search (build_search_body request q page 0) = Inr response \<longrightarrow>
            SearchView_get client_search request =
              (\<lparr>status = 500, data = Error_data ''Search failed'' (Some ZeroDivisionError)\<rparr>,
               [build_search_body request q page 0])) \<and>
         ((\<exists>v. (GET request ''page'' = Some v \<or> GET request ''page_size'' = Some v) \<and>
               py_int v = Inl ValueError) \<longrightarrow>
            SearchView_get client_search request =
              (\<lparr>status = 500, data = Error_data ''Search failed'' (Some ValueError)\<rparr>, []))"
proof (intro conjI impI)
  assume z: "GET request ''page_size'' = Some ''0''"
  then have n: "int_param request ''page_size'' 20 = Inr 0"
    by (simp add: int_param_def py_int_zero)
  have "\<exists>e sent. search_try client_search request q = (Inl e, sent)"
    using n by (simp add: search_try_def Let_def floordiv_def split: sum.splits)
  then show "status (fst (SearchView_get client_search request)) = 500"
    using assms
    by (auto simp: SearchView_get_def query_of_request HTTP_500_INTERNAL_SERVER_ERROR_def)
next
  assume a: "GET request ''page_size'' = Some ''0'' \<and>
          int_param request ''page'' 1 = Inr page \<and>
          client_search (build_search_body request q page 0) = Inr response"
  then have n: "int_param request ''page_size'' 20 = Inr 0"
    by (simp add: int_param_def py_int_zero)
  have "search_try client_search request q =
          (Inl ZeroDivisionError, [build_search_body request q page 0])"
    using a n by (simp add: search_try_def Let_def floordiv_def)
  then show "SearchView_get client_search request =
              (\<lparr>status = 500, data = Error_data ''Search failed'' (Some ZeroDivisionError)\<rparr>,
               [build_search_body request q page 0])"
    using assms
    by (simp add: SearchView_get_def query_of_request HTTP_500_INTERNAL_SERVER_ERROR_def)
next
  assume "\<exists>v. (GET request ''page'' = Some v \<or> GET request ''page_size'' = Some v) \<and>
               py_int v = Inl ValueError"
  then obtain v where v: "GET request ''page'' = Some v \<or> GET request ''page_size'' = Some v"
    and e: "py_int v = Inl ValueError" by blast
  have "search_try client_search request q = (Inl ValueError, [])"
  proof (cases "int_param request ''page'' 1")
    case (Inl e')
    then have "e' = ValueError"
      by (auto simp: int_param_def dest: py_int_error split: option.splits)
    with Inl show ?thesis by (simp add: search_try_def)
  next
    case (Inr p)
    with v e have "GET request ''page_size'' = Some v"
      by (auto simp: int_param_def)
    with e have "int_param request ''page_size'' 20 = Inl ValueError"
      by (simp add: int_param_def)
    with Inr show ?thesis by (simp add: search_try_def)
  qed
  then show "SearchView_get client_search request =
              (\<lparr>status = 500, data = Error_data ''Search failed'' (Some ValueError)\<rparr>, [])"
    using assms
    by (simp add: SearchView_get_def query_of_request HTTP_500_INTERNAL_SERVER_ERROR_def)
qed

text \<open>Instances: \<^verbatim>\<open>page_size=0\<close>, and \<^verbatim>\<open>page=abc\<close>.\<close>

theorem unvalidated_page_size_is_server_error_witness:
  "SearchView_get (engine_with_total 25) (query_request [(''q'', ''test''), (''page_size'', ''0'')]) =
     (\<lparr>status = 500, data = Error_data ''Search failed'' (Some ZeroDivisionError)\<rparr>,
      [build_search_body (query_request [(''q'', ''test''), (''page_size'', ''0'')]) ''test'' 1 0]) \<and>
   SearchView_get (engine_with_total 25) (query_request [(''q'', ''test''), (''page'', ''abc'')]) =
     (\<lparr>status = 500, data = Error_data ''Search failed'' (Some ValueError)\<rparr>, [])"
proof -
  let ?r = "query_request [(''q'', ''test''), (''page_size'', ''0'')]"
  let ?r' = "query_request [(''q'', ''test''), (''page'', ''abc'')]"
  have q: "GET ?r ''q'' = Some ''test''" and q': "GET ?r' ''q'' = Some ''test''"
    and ne: "''test'' \<noteq> []"
    by (simp_all add: query_request_def)
  have a: "GET ?r ''page_size'' = Some ''0'' \<and> int_param ?r ''page'' 1 = Inr 1 \<and>
           engine_with_total 25 (build_search_body ?r ''test'' 1 0) =
             Inr \<lparr>resp_hits = [], resp_total = 25, resp_took = 5, resp_aggregations = JObject []\<rparr>"
    by (simp add: query_request_def int_param_def engine_with_total_def)
  have b: "\<exists>v. (GET ?r' ''page'' = Some v \<or> GET ?r' ''page_size'' = Some v) \<and>
               py_int v = Inl ValueError"
    by (rule exI [of _ "''abc''"]) (simp add: query_request_def py_int_eval)
  show ?thesis
    using unvalidated_page_size_is_server_error [OF q ne, of "engine_with_total 25" 1
        "\<lparr>resp_hits = [], resp_total = 25, resp_took = 5, resp_aggregations = JObject []\<rparr>"]
      unvalidated_page_size_is_server_error [OF q' ne, of "engine_with_total 25"] a b
    by blast
qed

end
